theory Spec2Isabelle
  imports Main
begin

section \<open>Responsive table helper: data model\<close>

text \<open>
  The development embeds \<^verbatim>\<open>assets/responsive-table-helper.js\<close>. The DOM the script works on
  is modelled as far as the script reads and writes it:
  \<^item> a cell (\<^verbatim>\<open>th\<close> or \<^verbatim>\<open>td\<close>) has a tag, its inner html, and a display flag that jQuery's
    \<^verbatim>\<open>show()\<close>/\<^verbatim>\<open>hide()\<close> set;
  \<^item> the rows of the table, in document order, are either the rows of the page's own markup or
    sub-rows (\<^verbatim>\<open>tr.rth-sub-row\<close>) that \<^verbatim>\<open>addSubRow\<close> generated: one cell with
    \<^verbatim>\<open>colspan="999"\<close> holding a nested table of label/value rows;
  \<^item> widths are whole pixels (\<open>int\<close>), on which \<^verbatim>\<open>parseInt\<close> is the identity; the one
    non-number the script can compute, \<^verbatim>\<open>NaN\<close>, is a value of its own;
  \<^item> column indexes are 0-based (\<open>nat\<close>), as the options' documentation has them;
  \<^item> an exception thrown by the script is a value \<open>Inl e\<close>; every function that can throw
    returns \<open>error + _\<close>.
  The next sibling of a row is the next element of the row list (the rows of one table section).
\<close>

datatype error = TypeError string

datatype width = Px int | NaN

record cell =
  cell_th :: bool
  cell_html :: string
  cell_shown :: bool

record pair_row =
  pair_shown :: bool
  pair_cells :: "cell list"

datatype row =
    Row (row_cells: "cell list")
  | SubRow (sub_cell_shown: bool) (sub_pairs: "pair_row list")

datatype content =
    Html string
  | HtmlPair string string
  | Callback "cell \<Rightarrow> cell list \<Rightarrow> cell"

datatype labels = LabelsAuto | Labels "string list"

datatype padding = PaddingAuto | PaddingPx int

text \<open>The options object (\<^verbatim>\<open>_defaults\<close> merged with the caller's options). The option
  \<^verbatim>\<open>contentRowStartIndex\<close> is never read by the script and is left out; \<^verbatim>\<open>jTable\<close> is a field of
  the helper's state below.\<close>

record options =
  extraColumnContent :: content
  collapsibleColumnIndexes :: "nat list"
  expandedColumnFilterIndexes :: "nat list"
  columnLabels :: labels
  padding :: padding

text \<open>The helper object after \<^verbatim>\<open>listen\<close>. \<open>columnsToHide\<close> is \<open>None\<close> while the property is
  still undefined, that is until \<^verbatim>\<open>redraw\<close> has assigned it.\<close>

record rth = options +
  jTable :: "row list"
  originalAvailableWidth :: width
  initWindowWidth :: int
  minWidths :: "(nat \<times> int) list"
  availableWidth :: width
  columnsTotalWidth :: int
  columnsToHide :: "nat list option"

text \<open>What the browser reports during \<^verbatim>\<open>listen\<close>: the container's outer width, the window's
  width, the outer width of the cell at each index of the first row (measured after the toggle
  column is inserted), and the trimmed text of a cell's html.\<close>

record env =
  containerOuterWidth :: int
  windowWidth :: int
  outerWidth :: "nat \<Rightarrow> int"
  text_trim :: "string \<Rightarrow> string"

section \<open>JavaScript primitives\<close>

text \<open>\<^verbatim>\<open>Array.prototype.indexOf\<close>: the first position of the value, or \<open>-1\<close>.\<close>

fun indexOf :: "'a list \<Rightarrow> 'a \<Rightarrow> int" where
  "indexOf [] v = - 1"
| "indexOf (x # xs) v =
     (if x = v then 0 else (let r = indexOf xs v in if r = - 1 then - 1 else r + 1))"

text \<open>\<^verbatim>\<open>a < b\<close> where \<open>a\<close> may be \<^verbatim>\<open>NaN\<close> (every comparison with \<^verbatim>\<open>NaN\<close> is false), and
  \<^verbatim>\<open>a - b\<close>.\<close>

fun js_lt :: "width \<Rightarrow> int \<Rightarrow> bool" where
  "js_lt (Px a) b = (a < b)"
| "js_lt NaN b = False"

fun js_sub :: "width \<Rightarrow> width \<Rightarrow> width" where
  "js_sub (Px a) (Px b) = Px (a - b)"
| "js_sub _ _ = NaN"

text \<open>\<^verbatim>\<open>key in obj\<close> and \<^verbatim>\<open>obj[key]\<close> on the width map are \<open>map_of\<close> on the association list.\<close>

section \<open>hideColumns\<close>

text \<open>\<^verbatim>\<open>$(this).find('> th, > td').each(function (index) {...})\<close> on one row.\<close>

fun hideCells :: "nat list \<Rightarrow> nat \<Rightarrow> cell list \<Rightarrow> cell list" where
  "hideCells hideColumnIndexes index [] = []"
| "hideCells hideColumnIndexes index (c # cs) =
     (if - 1 \<noteq> indexOf hideColumnIndexes index
      then c\<lparr>cell_shown := False\<rparr>
      else c\<lparr>cell_shown := True\<rparr>) # hideCells hideColumnIndexes (Suc index) cs"

text \<open>\<^verbatim>\<open>this.jTable.find('tr')\<close> matches every \<^verbatim>\<open>tr\<close> below the table: the rows, the sub-rows, and
  the label/value rows of the nested table inside a sub-row. The only cell of a sub-row is at
  index 0; a label/value row has its label at index 0 and its value at index 1.\<close>

fun hideRow :: "nat list \<Rightarrow> row \<Rightarrow> row" where
  "hideRow hideColumnIndexes (Row cs) = Row (hideCells hideColumnIndexes 0 cs)"
| "hideRow hideColumnIndexes (SubRow shown prs) =
     SubRow (\<not> (- 1 \<noteq> indexOf hideColumnIndexes 0))
       (map (\<lambda>p. p\<lparr>pair_cells := hideCells hideColumnIndexes 0 (pair_cells p)\<rparr>) prs)"

definition hideColumns :: "nat list \<Rightarrow> row list \<Rightarrow> row list" where
  "hideColumns hideColumnIndexes t = map (hideRow hideColumnIndexes) t"

section \<open>addColumn and getColumnMinWidths\<close>

text \<open>\<^verbatim>\<open>jCells.eq(position)\<close>: a negative position counts from the end; out of range selects
  nothing.\<close>

definition eq_index :: "nat \<Rightarrow> int \<Rightarrow> nat option" where
  "eq_index n p =
     (if 0 \<le> p then (if p < int n then Some (nat p) else None)
      else (if 0 \<le> int n + p then Some (nat (int n + p)) else None))"

text \<open>The clone of the first cell, with its content set: from a string, from a callback that is
  given the clone and the row (the clone already in it) and returns the cell that replaces the
  clone, or from a pair of strings, the first for a \<^verbatim>\<open>th\<close> and the second for a \<^verbatim>\<open>td\<close>.\<close>

fun fillClone :: "content \<Rightarrow> cell \<Rightarrow> cell list \<Rightarrow> cell" where
  "fillClone (Html h) jClone jTr = jClone\<lparr>cell_html := h\<rparr>"
| "fillClone (Callback f) jClone jTr = f jClone jTr"
| "fillClone (HtmlPair h0 h1) jClone jTr =
     jClone\<lparr>cell_html := (if cell_th jClone then h0 else h1)\<rparr>"

text \<open>One row of \<^verbatim>\<open>addColumn\<close>, after \<open>position\<close> is clamped: the clone goes before the cell
  that \<^verbatim>\<open>eq(position)\<close> selects, or after the last cell when \<open>position\<close> is \<^verbatim>\<open>null\<close>. A row
  without cells has no first cell to clone and stays as it is, and so does a row in which
  \<^verbatim>\<open>eq(position)\<close> selects nothing.\<close>

definition addCell :: "int option \<Rightarrow> content \<Rightarrow> cell list \<Rightarrow> cell list" where
  "addCell position cont r =
     (case r of
        [] \<Rightarrow> []
      | jClone # _ \<Rightarrow>
          (case (case position of
                   Some p \<Rightarrow> eq_index (length r) p
                 | None \<Rightarrow> Some (length r)) of
             None \<Rightarrow> r
           | Some k \<Rightarrow>
               take k r @ [fillClone cont jClone (take k r @ [jClone] @ drop k r)] @ drop k r))"

text \<open>\<open>position\<close> is a variable of \<^verbatim>\<open>addColumn\<close> that the callback of \<^verbatim>\<open>each\<close> assigns, so a
  clamped value is carried to the rows that follow. In the comparison \<^verbatim>\<open>null\<close> counts as 0.\<close>

fun addColumn :: "int option \<Rightarrow> content \<Rightarrow> cell list list \<Rightarrow> cell list list" where
  "addColumn position cont [] = []"
| "addColumn position cont (r # rs) =
     (let nbColumns = int (length r);
          position' = (if (case position of None \<Rightarrow> 0 | Some p \<Rightarrow> p) > nbColumns - 1
                       then Some (nbColumns - 1) else position)
      in addCell position' cont r # addColumn position' cont rs)"

definition getColumnMinWidths :: "env \<Rightarrow> cell list list \<Rightarrow> (nat \<times> int) list" where
  "getColumnMinWidths e t =
     (case t of
        [] \<Rightarrow> []
      | jTr # _ \<Rightarrow> map (\<lambda>index. (index, outerWidth e index)) [0..<length jTr])"

definition sum_arrObj :: "(nat \<times> int) list \<Rightarrow> int" where
  "sum_arrObj arrObj = fold (\<lambda>(i, v) s. s + v) arrObj 0"

definition removeByValue :: "nat list \<Rightarrow> nat \<Rightarrow> nat list" where
  "removeByValue arr v =
     (let index = indexOf arr v
      in if index \<noteq> - 1 then take (nat index) arr @ drop (Suc (nat index)) arr else arr)"

section \<open>redraw\<close>

text \<open>The \<^verbatim>\<open>while\<close> loop of \<^verbatim>\<open>redraw\<close>. The state of the loop is the rest of the copied priority
  list, \<open>columnsTotalWidth\<close>, \<open>columnsToHide\<close> and \<open>columnsToShow\<close>. On an empty list the loop
  ends whether its condition holds or not (\<^verbatim>\<open>shift()\<close> returns \<^verbatim>\<open>undefined\<close> and the loop
  breaks). The prototype defines no method \<^verbatim>\<open>error\<close>, so the call \<^verbatim>\<open>this.error(...)\<close> of the
  \<^verbatim>\<open>else\<close> branch throws a \<^verbatim>\<open>TypeError\<close>.\<close>

fun collapse_loop ::
  "width \<Rightarrow> (nat \<times> int) list \<Rightarrow> nat list \<Rightarrow> int \<Rightarrow> nat list \<Rightarrow> nat list
   \<Rightarrow> error + (int \<times> nat list \<times> nat list)" where
  "collapse_loop aw mw [] totalWidth toHide toShow = Inr (totalWidth, toHide, toShow)"
| "collapse_loop aw mw (c # cs) totalWidth toHide toShow =
     (if js_lt aw totalWidth then
        (let nextColumnToCollapse = c + 1 in
         case map_of mw nextColumnToCollapse of
           Some w \<Rightarrow>
             collapse_loop aw mw cs (totalWidth - w) (toHide @ [nextColumnToCollapse])
               (removeByValue toShow nextColumnToCollapse)
         | None \<Rightarrow> Inl (TypeError ''this.error is not a function''))
      else Inr (totalWidth, toHide, toShow))"

text \<open>The hidden-column list that \<^verbatim>\<open>redraw\<close> computes and assigns to
  \<^verbatim>\<open>this.columnsToHide\<close>: the loop, then the rule for the toggle column 0.\<close>

definition computeColumnsToHide :: "('a rth_scheme) \<Rightarrow> error + nat list" where
  "computeColumnsToHide s =
     (case collapse_loop (availableWidth s) (minWidths s) (collapsibleColumnIndexes s)
             (columnsTotalWidth s) [] (map fst (minWidths s)) of
        Inl e \<Rightarrow> Inl e
      | Inr (totalWidth, toHide, toShow) \<Rightarrow>
          (let hasColumnsToExpand =
                 (if toHide = [] then False
                  else (let columnsToHideCopy =
                              filter (\<lambda>e. - 1 = indexOf (expandedColumnFilterIndexes s) (e - 1))
                                toHide
                        in (if columnsToHideCopy = [] then False else True)))
           in Inr (if hasColumnsToExpand = False then toHide @ [0] else toHide)))"

text \<open>The label/value rows of one open sub-row, revisited by \<^verbatim>\<open>redraw\<close>.\<close>

fun resizePairs :: "nat list \<Rightarrow> nat list \<Rightarrow> nat \<Rightarrow> pair_row list \<Rightarrow> pair_row list" where
  "resizePairs filterIndexes toHide index [] = []"
| "resizePairs filterIndexes toHide index (p # ps) =
     (if - 1 \<noteq> indexOf filterIndexes index \<or> - 1 = indexOf toHide (index + 1)
      then p\<lparr>pair_shown := False\<rparr>
      else p\<lparr>pair_shown := True\<rparr>) # resizePairs filterIndexes toHide (Suc index) ps"

fun resizeSubRow :: "nat list \<Rightarrow> nat list \<Rightarrow> row \<Rightarrow> row" where
  "resizeSubRow filterIndexes toHide (Row cs) = Row cs"
| "resizeSubRow filterIndexes toHide (SubRow shown prs) =
     SubRow shown (resizePairs filterIndexes toHide 0 prs)"

definition redraw :: "rth \<Rightarrow> error + rth" where
  "redraw s =
     (case computeColumnsToHide s of
        Inl e \<Rightarrow> Inl e
      | Inr toHide \<Rightarrow>
          Inr (s\<lparr>columnsToHide := Some toHide,
                 jTable := map (resizeSubRow (expandedColumnFilterIndexes s) toHide)
                             (hideColumns toHide (jTable s))\<rparr>))"

section \<open>addSubRow and removeSubRow\<close>

text \<open>\<^verbatim>\<open>jNextTr.length && jNextTr.hasClass('rth-sub-row')\<close> for the row at position \<open>i\<close>.\<close>

definition hasSubRow :: "row list \<Rightarrow> nat \<Rightarrow> bool" where
  "hasSubRow t i = (case drop (Suc i) t of SubRow shown prs # _ \<Rightarrow> True | _ \<Rightarrow> False)"

text \<open>\<^verbatim>\<open>jTr.find('> td').not(":first")\<close>: the \<^verbatim>\<open>td\<close> children but the first.\<close>

fun data_tds :: "row \<Rightarrow> cell list" where
  "data_tds (Row cs) = drop 1 (filter (\<lambda>c. \<not> cell_th c) cs)"
| "data_tds (SubRow shown prs) = []"

text \<open>\<^verbatim>\<open>columnLabels[index]\<close>; an index beyond the array gives \<^verbatim>\<open>undefined\<close>, which the string
  concatenation prints. While \<^verbatim>\<open>columnLabels\<close> is still the string \<^verbatim>\<open>'auto'\<close>, the index selects
  one of its characters.\<close>

fun labelAt :: "labels \<Rightarrow> nat \<Rightarrow> string" where
  "labelAt (Labels ls) index = (if index < length ls then ls ! index else ''undefined'')"
| "labelAt LabelsAuto index =
     (if index < length ''auto'' then [''auto'' ! index] else ''undefined'')"

text \<open>The callback of \<^verbatim>\<open>each\<close> in \<^verbatim>\<open>addSubRow\<close>. \<^verbatim>\<open>||\<close> evaluates its second operand only when
  the first is false; \<^verbatim>\<open>this.columnsToHide.indexOf\<close> throws while \<^verbatim>\<open>columnsToHide\<close> is
  undefined.\<close>

fun build_pairs ::
  "nat list \<Rightarrow> nat list option \<Rightarrow> labels \<Rightarrow> nat \<Rightarrow> cell list \<Rightarrow> error + pair_row list" where
  "build_pairs filterIndexes toHide lbls index [] = Inr []"
| "build_pairs filterIndexes toHide lbls index (c # cs) =
     (let pr = (\<lambda>hidden.
                 \<lparr>pair_shown = \<not> hidden,
                  pair_cells = [\<lparr>cell_th = False, cell_html = labelAt lbls index, cell_shown = True\<rparr>,
                                \<lparr>cell_th = False, cell_html = cell_html c, cell_shown = True\<rparr>]\<rparr>);
          rest = build_pairs filterIndexes toHide lbls (Suc index) cs
      in if - 1 \<noteq> indexOf filterIndexes index
         then map_sum id ((#) (pr True)) rest
         else (case toHide of
                 None \<Rightarrow> Inl (TypeError ''this.columnsToHide is undefined'')
               | Some h \<Rightarrow> map_sum id ((#) (pr (- 1 = indexOf h (index + 1)))) rest))"

text \<open>\<open>addSubRow s i\<close> is \<^verbatim>\<open>addSubRow(jTr)\<close> for the row \<open>jTr\<close> at position \<open>i\<close> of the table; a
  position beyond the table is the empty jQuery object, after which nothing is inserted.\<close>

definition addSubRow :: "rth \<Rightarrow> nat \<Rightarrow> error + rth" where
  "addSubRow s i =
     (if hasSubRow (jTable s) i then Inr s
      else if length (jTable s) \<le> i then Inr s
      else (case build_pairs (expandedColumnFilterIndexes s) (columnsToHide s) (columnLabels s) 0
                   (data_tds (jTable s ! i)) of
              Inl e \<Rightarrow> Inl e
            | Inr prs \<Rightarrow>
                Inr (s\<lparr>jTable := take (Suc i) (jTable s) @ [SubRow True prs]
                                   @ drop (Suc i) (jTable s)\<rparr>)))"

definition removeSubRow :: "rth \<Rightarrow> nat \<Rightarrow> rth" where
  "removeSubRow s i =
     (if hasSubRow (jTable s) i
      then s\<lparr>jTable := take (Suc i) (jTable s) @ drop (Suc (Suc i)) (jTable s)\<rparr>
      else s)"

section \<open>listen\<close>

text \<open>\<^verbatim>\<open>listen\<close> is called on the page's own table, before any sub-row exists: its rows are lists
  of cells. \<open>listen_setup\<close> is the body of \<^verbatim>\<open>listen\<close> down to the comment \<^verbatim>\<open>redrawing\<close>: the
  helper as it is when the guard of the first \<^verbatim>\<open>redraw\<close> is reached. With padding \<^verbatim>\<open>'auto'\<close> the
  loop over \<^verbatim>\<open>minWidths\<close> leaves the width of the last column in \<open>padding\<close>; over an empty map
  it leaves the string \<^verbatim>\<open>'auto'\<close>, and the subtraction gives \<^verbatim>\<open>NaN\<close>. The handler of \<^verbatim>\<open>resize\<close>
  that \<^verbatim>\<open>listen\<close> registers is \<open>onResize\<close>.\<close>

definition listen_setup :: "env \<Rightarrow> options \<Rightarrow> cell list list \<Rightarrow> rth" where
  "listen_setup e opts table =
     (let lbls = (case columnLabels opts of
                    LabelsAuto \<Rightarrow>
                      Labels (case table of
                                [] \<Rightarrow> []
                              | jTr # _ \<Rightarrow> map (\<lambda>c. text_trim e (cell_html c)) jTr)
                  | Labels ls \<Rightarrow> Labels ls);
          table' = addColumn (Some 0) (extraColumnContent opts) table;
          mw = getColumnMinWidths e table';
          pad = (case padding opts of
                   PaddingPx p \<Rightarrow> Px p
                 | PaddingAuto \<Rightarrow> (if mw = [] then NaN else Px (snd (last mw))));
          original = js_sub (Px (containerOuterWidth e)) pad
      in options.extend (opts\<lparr>columnLabels := lbls\<rparr>)
           (rth.fields (map Row table') original (windowWidth e) mw original
              (sum_arrObj mw) None))"

definition listen :: "env \<Rightarrow> options \<Rightarrow> cell list list \<Rightarrow> error + rth" where
  "listen e opts table =
     (let s = listen_setup e opts table
      in if js_lt (availableWidth s) (columnsTotalWidth s) then redraw s else Inr s)"

definition onResize :: "rth \<Rightarrow> int \<Rightarrow> error + rth" where
  "onResize s windowNewSize =
     (let sizeOffset = initWindowWidth s - windowNewSize
      in redraw (s\<lparr>availableWidth := js_sub (originalAvailableWidth s) (Px sizeOffset)\<rparr>))"

section \<open>Notions used in the statements\<close>

text \<open>The helper once a call has ended, by a return or by an exception. \<^verbatim>\<open>redraw\<close> and
  \<^verbatim>\<open>addSubRow\<close> throw before their first assignment to the helper or to the table, so after an
  exception the helper is the one before the call.\<close>

definition after_call :: "rth \<Rightarrow> error + rth \<Rightarrow> rth" where
  "after_call s r = (case r of Inl e \<Rightarrow> s | Inr s' \<Rightarrow> s')"

text \<open>The display flags of the cells of every \<^verbatim>\<open>tr\<close> that \<^verbatim>\<open>jTable.find('tr')\<close> matches.\<close>

fun tr_flags :: "row \<Rightarrow> bool list list" where
  "tr_flags (Row cs) = [map cell_shown cs]"
| "tr_flags (SubRow shown prs) = [shown] # map (\<lambda>p. map cell_shown (pair_cells p)) prs"

definition find_tr :: "row list \<Rightarrow> bool list list" where
  "find_tr t = concat (map tr_flags t)"




text \<open>Column \<open>a\<close> precedes column \<open>b\<close> in the priority list: the first position of \<open>a\<close> is before
  the first position of \<open>b\<close>.\<close>

fun precedes :: "nat list \<Rightarrow> nat \<Rightarrow> nat \<Rightarrow> bool" where
  "precedes [] a b = False"
| "precedes (x # xs) a b =
     (if x = b then False else if x = a then b \<in> set xs else precedes xs a b)"

text \<open>Column \<open>k\<close> (in the table's numbering, the toggle column being 0) is in the hidden list that
  a layout pass computes at available width \<open>w\<close>.\<close>

definition hidden_at :: "rth \<Rightarrow> int \<Rightarrow> nat \<Rightarrow> bool" where
  "hidden_at s w k =
     (case redraw (s\<lparr>availableWidth := Px w\<rparr>) of
        Inl e \<Rightarrow> False
      | Inr s' \<Rightarrow> (case columnsToHide s' of None \<Rightarrow> False | Some h \<Rightarrow> k \<in> set h))"

text \<open>The sum of the minimum widths of the columns that are not in the (shifted) priority list.\<close>

definition nonCollapsibleWidth :: "rth \<Rightarrow> int" where
  "nonCollapsibleWidth s =
     sum_arrObj
       (filter (\<lambda>(k, w). k \<notin> set (map Suc (collapsibleColumnIndexes s))) (minWidths s))"

text \<open>Two helpers agree on what a layout pass reads: the available width, the width map with its
  sum (which \<^verbatim>\<open>listen\<close> stores in \<open>columnsTotalWidth\<close>), the priority list and the filter list.\<close>

definition same_inputs :: "rth \<Rightarrow> rth \<Rightarrow> bool" where
  "same_inputs s1 s2 =
     (availableWidth s1 = availableWidth s2 \<and> minWidths s1 = minWidths s2
      \<and> columnsTotalWidth s1 = columnsTotalWidth s2
      \<and> collapsibleColumnIndexes s1 = collapsibleColumnIndexes s2
      \<and> expandedColumnFilterIndexes s1 = expandedColumnFilterIndexes s2)"

text \<open>The number of sub-rows at the head of a row list, and the invariant of the table: every
  row of the page is followed by at most one sub-row.\<close>

fun leading_subs :: "row list \<Rightarrow> nat" where
  "leading_subs (SubRow shown prs # rs) = Suc (leading_subs rs)"
| "leading_subs rs = 0"

fun at_most_one_sub :: "row list \<Rightarrow> bool" where
  "at_most_one_sub [] = True"
| "at_most_one_sub (Row cs # rs) = (leading_subs rs \<le> 1 \<and> at_most_one_sub rs)"
| "at_most_one_sub (SubRow shown prs # rs) = at_most_one_sub rs"



section \<open>Example tables\<close>

text \<open>A helper over six columns of minimum widths 40, 80, 80, 80, 80 and 160 pixels (column 0
  is the toggle column), with an empty table.\<close>

definition scenario :: "nat list \<Rightarrow> nat list \<Rightarrow> width \<Rightarrow> rth" where
  "scenario cs E w =
     \<lparr>extraColumnContent = Html ''+'', collapsibleColumnIndexes = cs,
      expandedColumnFilterIndexes = E, columnLabels = Labels [], padding = PaddingPx 0,
      jTable = [], originalAvailableWidth = w, initWindowWidth = 0,
      minWidths = [(0, 40), (1, 80), (2, 80), (3, 80), (4, 80), (5, 160)],
      availableWidth = w, columnsTotalWidth = 520, columnsToHide = None\<rparr>"

text \<open>A page with a header row and one content row of three columns, and what the browser
  measures on it.\<close>

definition td :: "string \<Rightarrow> cell" where
  "td h = \<lparr>cell_th = False, cell_html = h, cell_shown = True\<rparr>"

definition th :: "string \<Rightarrow> cell" where
  "th h = \<lparr>cell_th = True, cell_html = h, cell_shown = True\<rparr>"

definition page :: "cell list list" where
  "page = [[th ''Id'', th ''First'', th ''Last''], [td ''1'', td ''Mark'', td ''Otto'']]"

definition page_options :: options where
  "page_options =
     \<lparr>extraColumnContent = HtmlPair [] ''+'', collapsibleColumnIndexes = [2, 1],
      expandedColumnFilterIndexes = [], columnLabels = LabelsAuto, padding = PaddingPx 50\<rparr>"

definition browser :: "int \<Rightarrow> env" where
  "browser w =
     \<lparr>containerOuterWidth = w, windowWidth = w + 20,
      outerWidth = (\<lambda>index. if index = 0 then 40 else 80), text_trim = (\<lambda>h. h)\<rparr>"

text \<open>The helper over the page after \<^verbatim>\<open>listen\<close> and a resize of the window to 200 pixels, that
  is to an available width of 130: the layout pass hides the columns 3 and 2. Then the same
  helper with the sub-row of the content row open.\<close>

definition narrow_page :: rth where
  "narrow_page = after_call (listen_setup (browser 1000) page_options page)
                   (onResize (listen_setup (browser 1000) page_options page) 200)"

definition expanded_page :: rth where
  "expanded_page = after_call narrow_page (addSubRow narrow_page 1)"

section \<open>Basic facts\<close>

lemma indexOf_ge: "- 1 \<le> indexOf xs v"
  by (induction xs) (auto simp: Let_def)

lemma indexOf_eq: "(indexOf xs v = - 1) = (v \<notin> set xs)"
proof (induction xs)
  case Nil
  show ?case by simp
next
  case (Cons x xs)
  have "indexOf xs v + 1 \<noteq> - 1" using indexOf_ge[of xs v] by arith
  with Cons show ?case by (simp add: Let_def)
qed

lemma indexOf_eq': "(- 1 = indexOf xs v) = (v \<notin> set xs)"
  using indexOf_eq[of xs v] by auto

lemmas layout_defs = redraw_def computeColumnsToHide_def scenario_def hideColumns_def

section \<open>The example pages, evaluated\<close>

lemma narrow_page_eq:
  "narrow_page =
     \<lparr>extraColumnContent = HtmlPair [] ''+'', collapsibleColumnIndexes = [2, 1],
      expandedColumnFilterIndexes = [], columnLabels = Labels [''Id'', ''First'', ''Last''],
      padding = PaddingPx 50,
      jTable = [Row [(th []), th ''Id'', (th ''First'')\<lparr>cell_shown := False\<rparr>,
                     (th ''Last'')\<lparr>cell_shown := False\<rparr>],
                Row [td ''+'', td ''1'', (td ''Mark'')\<lparr>cell_shown := False\<rparr>,
                     (td ''Otto'')\<lparr>cell_shown := False\<rparr>]],
      originalAvailableWidth = Px 950, initWindowWidth = 1020,
      minWidths = [(0, 40), (1, 80), (2, 80), (3, 80)],
      availableWidth = Px 130, columnsTotalWidth = 280, columnsToHide = Some [3, 2]\<rparr>"
  by (simp add: narrow_page_def after_call_def onResize_def redraw_def computeColumnsToHide_def
      hideColumns_def listen_setup_def browser_def page_options_def page_def td_def th_def
      getColumnMinWidths_def sum_arrObj_def addCell_def eq_index_def options.defs rth.defs
      removeByValue_def Let_def)

lemma expanded_page_eq:
  "expanded_page =
     narrow_page\<lparr>jTable :=
       [Row [(th []), th ''Id'', (th ''First'')\<lparr>cell_shown := False\<rparr>,
             (th ''Last'')\<lparr>cell_shown := False\<rparr>],
        Row [td ''+'', td ''1'', (td ''Mark'')\<lparr>cell_shown := False\<rparr>,
             (td ''Otto'')\<lparr>cell_shown := False\<rparr>],
        SubRow True
          [\<lparr>pair_shown = False, pair_cells = [td ''Id'', td ''1'']\<rparr>,
           \<lparr>pair_shown = True, pair_cells = [td ''First'', td ''Mark'']\<rparr>,
           \<lparr>pair_shown = True, pair_cells = [td ''Last'', td ''Otto'']\<rparr>]]\<rparr>"
  by (simp add: expanded_page_def narrow_page_eq addSubRow_def hasSubRow_def after_call_def
      td_def th_def Let_def)

section \<open>hideColumns\<close>

lemma hideCells_flags:
  "map cell_shown (hideCells h i cs) = map (\<lambda>k. k \<notin> set h) [i..<i + length cs]"
proof (induction cs arbitrary: i)
  case Nil
  show ?case by simp
next
  case (Cons c cs)
  have "[i..<i + length (c # cs)] = i # [Suc i..<Suc i + length cs]"
    by (simp add: upt_rec)
  with Cons[of "Suc i"] show ?case by (simp add: indexOf_eq')
qed

lemma length_hideCells: "length (hideCells h i cs) = length cs"
  by (induction cs arbitrary: i) simp_all

lemma tr_flags_hideRow:
  "flags \<in> set (tr_flags (hideRow h r)) \<Longrightarrow> flags = map (\<lambda>k. k \<notin> set h) [0..<length flags]"
proof (cases r)
  case (Row cs)
  assume "flags \<in> set (tr_flags (hideRow h r))"
  with Row have "flags = map cell_shown (hideCells h 0 cs)" by simp
  then show ?thesis by (simp add: hideCells_flags)
next
  case (SubRow shown prs)
  assume "flags \<in> set (tr_flags (hideRow h r))"
  with SubRow have "flags = [0 \<notin> set h] \<or> (\<exists>p \<in> set prs. flags = map cell_shown (hideCells h 0 (pair_cells p)))"
    by (auto simp: indexOf_eq')
  then show ?thesis by (auto simp: hideCells_flags)
qed

lemma tr_lengths_hideRow: "map length (tr_flags (hideRow h r)) = map length (tr_flags r)"
  by (cases r) (simp_all add: length_hideCells comp_def)

text \<open>
  Claim C10. \<^verbatim>\<open>hideColumns\<close> applies one rule to every \<^verbatim>\<open>tr\<close> below the table, whether it is a
  header row, a content row, a sub-row or a label/value row inside a sub-row: the cell at
  position \<open>i\<close> of the row is displayed exactly when \<open>i\<close> is not in the given list. No row gains
  or loses a cell. Hence, when 0 is in the list, the only cell of every open sub-row, which is
  at position 0 of its row, is hidden, and the detail view with it.
\<close>

theorem hideColumns_same_rule_on_every_row:
  "(\<forall>flags \<in> set (find_tr (hideColumns h t)). \<forall>i < length flags. flags ! i = (i \<notin> set h))
   \<and> map length (find_tr (hideColumns h t)) = map length (find_tr t)
   \<and> (0 \<in> set h \<longrightarrow>
        (\<forall>r \<in> set (hideColumns h t). case r of Row cs \<Rightarrow> True | SubRow shown prs \<Rightarrow> \<not> shown))"
proof (intro conjI ballI allI impI)
  fix flags i
  assume "flags \<in> set (find_tr (hideColumns h t))" and i: "i < length flags"
  then obtain r where "flags \<in> set (tr_flags (hideRow h r))"
    by (auto simp: find_tr_def hideColumns_def)
  then have "flags = map (\<lambda>k. k \<notin> set h) [0..<length flags]" by (rule tr_flags_hideRow)
  then have "flags ! i = map (\<lambda>k. k \<notin> set h) [0..<length flags] ! i" by simp
  also have "\<dots> = (i \<notin> set h)" using i by simp
  finally show "flags ! i = (i \<notin> set h)" .
next
  have "map length (concat (map (tr_flags \<circ> hideRow h) t)) = map length (concat (map tr_flags t))"
    by (induction t) (simp_all add: tr_lengths_hideRow)
  then show "map length (find_tr (hideColumns h t)) = map length (find_tr t)"
    by (simp add: find_tr_def hideColumns_def)
next
  fix r
  assume "0 \<in> set h" and "r \<in> set (hideColumns h t)"
  then obtain r' where "r = hideRow h r'" by (auto simp: hideColumns_def)
  with \<open>0 \<in> set h\<close> show "case r of Row cs \<Rightarrow> True | SubRow shown prs \<Rightarrow> \<not> shown"
    by (cases r') (simp_all add: indexOf_eq')
qed

theorem hideColumns_same_rule_on_every_row_witness:
  "0 \<in> set [0 :: nat]
   \<and> find_tr (hideColumns [0] (jTable expanded_page))
       = [[False, True, True, True], [False, True, True, True], [False],
          [False, True], [False, True], [False, True]]
   \<and> list_all (\<lambda>flags. list_all (\<lambda>i. flags ! i = (i \<notin> set [0 :: nat])) [0..<length flags])
       (find_tr (hideColumns [0] (jTable expanded_page)))
   \<and> map length (find_tr (hideColumns [0] (jTable expanded_page)))
       = map length (find_tr (jTable expanded_page))
   \<and> list_all (\<lambda>r. case r of Row cs \<Rightarrow> True | SubRow shown prs \<Rightarrow> \<not> shown)
       (hideColumns [0] (jTable expanded_page))"
proof -
  have h: "0 \<in> set [0 :: nat]" by simp
  have ev: "find_tr (hideColumns [0] (jTable expanded_page))
       = [[False, True, True, True], [False, True, True, True], [False],
          [False, True], [False, True], [False, True]]"
    by (simp add: expanded_page_eq find_tr_def hideColumns_def td_def th_def)
  from hideColumns_same_rule_on_every_row[of "[0]" "jTable expanded_page"] h
  have "list_all (\<lambda>flags. list_all (\<lambda>i. flags ! i = (i \<notin> set [0 :: nat])) [0..<length flags])
       (find_tr (hideColumns [0] (jTable expanded_page)))"
    and "map length (find_tr (hideColumns [0] (jTable expanded_page)))
       = map length (find_tr (jTable expanded_page))"
    and "list_all (\<lambda>r. case r of Row cs \<Rightarrow> True | SubRow shown prs \<Rightarrow> \<not> shown)
       (hideColumns [0] (jTable expanded_page))"
    unfolding list_all_iff by auto
  with h ev show ?thesis by blast
qed

section \<open>The detail view\<close>












section \<open>The layout pass\<close>

lemma collapse_loop_prefix:
  "collapse_loop aw mw cs t h sh = Inr (t', h', sh') \<Longrightarrow>
     \<exists>n. n \<le> length cs \<and> h' = h @ map Suc (take n cs)"
proof (induction cs arbitrary: t h sh)
  case Nil
  then show ?case by simp
next
  case (Cons c cs)
  show ?case
  proof (cases "js_lt aw t")
    case False
    with Cons.prems have "h' = h" by simp
    then show ?thesis by (intro exI[of _ 0]) simp
  next
    case True
    with Cons.prems obtain w where
      rec: "collapse_loop aw mw cs (t - w) (h @ [Suc c]) (removeByValue sh (Suc c)) = Inr (t', h', sh')"
      by (auto split: option.splits)
    from Cons.IH[OF rec] obtain n where n: "n \<le> length cs" "h' = (h @ [Suc c]) @ map Suc (take n cs)"
      by blast
    show ?thesis
      using n by (intro exI[of _ "Suc n"]) simp
  qed
qed

lemma computeColumnsToHide_shape:
  assumes "computeColumnsToHide s = Inr h"
  shows "\<exists>n. n \<le> length (collapsibleColumnIndexes s) \<and>
           (h = map Suc (take n (collapsibleColumnIndexes s)) \<or>
            h = map Suc (take n (collapsibleColumnIndexes s)) @ [0])"
proof -
  from assms obtain t' h' sh' where
    loop: "collapse_loop (availableWidth s) (minWidths s) (collapsibleColumnIndexes s)
             (columnsTotalWidth s) [] (map fst (minWidths s)) = Inr (t', h', sh')"
    and h: "h = h' \<or> h = h' @ [0]"
    by (auto simp: computeColumnsToHide_def Let_def split: sum.splits if_splits)
  from collapse_loop_prefix[OF loop] obtain n where
    "n \<le> length (collapsibleColumnIndexes s)" "h' = map Suc (take n (collapsibleColumnIndexes s))"
    by auto
  with h show ?thesis by blast
qed

lemma redraw_columnsToHide:
  "redraw s = Inr s' \<Longrightarrow> \<exists>h. computeColumnsToHide s = Inr h \<and> columnsToHide s' = Some h"
  by (auto simp: redraw_def split: sum.splits)

lemma precedes_take:
  "precedes cs a b \<Longrightarrow> b \<in> set (take n cs) \<Longrightarrow> a \<in> set (take n cs)"
proof (induction cs arbitrary: n)
  case Nil
  then show ?case by simp
next
  case (Cons x xs)
  show ?case
  proof (cases n)
    case 0
    with Cons.prems show ?thesis by simp
  next
    case (Suc m)
    with Cons show ?thesis by (auto split: if_splits)
  qed
qed

lemma precedes_distinct:
  assumes "distinct cs"
  shows "precedes cs a b \<longleftrightarrow> (\<exists>i j. i < j \<and> j < length cs \<and> cs ! i = a \<and> cs ! j = b)"
  using assms
proof (induction cs)
  case Nil
  show ?case by simp
next
  case (Cons x xs)
  let ?R = "\<lambda>ys. \<exists>i j. i < j \<and> j < length ys \<and> ys ! i = a \<and> ys ! j = b"
  from Cons have IH: "precedes xs a b \<longleftrightarrow> ?R xs" and nx: "x \<notin> set xs" by simp_all
  have shift: "?R xs \<Longrightarrow> ?R (x # xs)"
  proof -
    assume "?R xs"
    then obtain i j where "i < j" "j < length xs" "xs ! i = a" "xs ! j = b" by blast
    then have "Suc i < Suc j \<and> Suc j < length (x # xs) \<and> (x # xs) ! Suc i = a \<and> (x # xs) ! Suc j = b"
      by simp
    then show "?R (x # xs)" by blast
  qed
  show ?case
  proof (cases "x = b")
    case True
    have "\<not> ?R (x # xs)"
    proof
      assume "?R (x # xs)"
      then obtain i j where ij: "i < j" "j < length (x # xs)" "(x # xs) ! j = b" by blast
      then obtain j' where "j = Suc j'" by (cases j) auto
      with ij have "xs ! j' = x" "j' < length xs" using True by auto
      with nx show False by (metis nth_mem)
    qed
    with True show ?thesis by simp
  next
    case xb: False
    show ?thesis
    proof (cases "x = a")
      case True
      have "b \<in> set xs \<longleftrightarrow> ?R (x # xs)"
      proof
        assume "b \<in> set xs"
        then obtain j where "j < length xs" "xs ! j = b" by (auto simp: in_set_conv_nth)
        then have "0 < Suc j \<and> Suc j < length (x # xs) \<and> (x # xs) ! 0 = a \<and> (x # xs) ! Suc j = b"
          using True by simp
        then show "?R (x # xs)" by blast
      next
        assume "?R (x # xs)"
        then obtain i j where ij: "i < j" "j < length (x # xs)" "(x # xs) ! j = b" by blast
        then obtain j' where "j = Suc j'" by (cases j) auto
        with ij have "xs ! j' = b" "j' < length xs" by auto
        then show "b \<in> set xs" by (metis nth_mem)
      qed
      with True xb show ?thesis by simp
    next
      case xa: False
      have "?R (x # xs) \<Longrightarrow> ?R xs"
      proof -
        assume "?R (x # xs)"
        then obtain i j where ij: "i < j" "j < length (x # xs)" "(x # xs) ! i = a" "(x # xs) ! j = b"
          by blast
        from ij xa obtain i' where i': "i = Suc i'" by (cases i) auto
        from ij obtain j' where j': "j = Suc j'" by (cases j) auto
        from ij i' j' have "i' < j' \<and> j' < length xs \<and> xs ! i' = a \<and> xs ! j' = b" by simp
        then show "?R xs" by blast
      qed
      with shift IH xa xb show ?thesis by auto
    qed
  qed
qed

lemma collapse_loop_measured:
  "collapse_loop aw mw cs t h sh = Inr (t', h', sh') \<Longrightarrow> k \<in> set h' \<Longrightarrow>
     k \<in> set h \<or> map_of mw k \<noteq> None"
proof (induction cs arbitrary: t h sh)
  case Nil
  then show ?case by simp
next
  case (Cons c cs)
  show ?case
  proof (cases "js_lt aw t")
    case False
    with Cons.prems show ?thesis by simp
  next
    case True
    with Cons.prems obtain w where w: "map_of mw (Suc c) = Some w"
      and rec: "collapse_loop aw mw cs (t - w) (h @ [Suc c]) (removeByValue sh (Suc c))
                  = Inr (t', h', sh')"
      by (auto split: option.splits)
    from Cons.IH[OF rec Cons.prems(2)] w show ?thesis by auto
  qed
qed

text \<open>Only columns with a measured width, and the toggle column, are ever in the hidden list.\<close>

lemma hidden_columns_are_measured:
  assumes "redraw s = Inr s'" and "columnsToHide s' = Some h" and "k \<in> set h"
  shows "k = 0 \<or> map_of (minWidths s) k \<noteq> None"
proof -
  from redraw_columnsToHide[OF assms(1)] assms(2) have c: "computeColumnsToHide s = Inr h" by auto
  then obtain t' h' sh' where
    loop: "collapse_loop (availableWidth s) (minWidths s) (collapsibleColumnIndexes s)
             (columnsTotalWidth s) [] (map fst (minWidths s)) = Inr (t', h', sh')"
    and h: "h = h' \<or> h = h' @ [0]"
    by (auto simp: computeColumnsToHide_def Let_def split: sum.splits if_splits)
  from h assms(3) have "k = 0 \<or> k \<in> set h'" by auto
  with collapse_loop_measured[OF loop] show ?thesis by auto
qed

text \<open>A candidate without a measured width, once the loop reaches it, ends the pass.\<close>

lemma redraw_throws_on_unmeasured_candidate:
  assumes "js_lt (availableWidth s) (columnsTotalWidth s)"
    and "collapsibleColumnIndexes s = c # cs"
    and "map_of (minWidths s) (Suc c) = None"
  shows "redraw s = Inl (TypeError ''this.error is not a function'')"
  using assms by (simp add: redraw_def computeColumnsToHide_def)

text \<open>
  Claim C2. The claim is that a candidate of the priority list whose shifted index has no entry
  in \<^verbatim>\<open>minWidths\<close> is reported and skipped, and that the layout pass goes on and never throws.
  The \<^verbatim>\<open>else\<close> branch of the loop does call \<^verbatim>\<open>this.error(...)\<close> and would then go on, but the
  prototype defines no method \<^verbatim>\<open>error\<close>, so the call throws a \<^verbatim>\<open>TypeError\<close> and the pass ends
  there, before it assigns \<^verbatim>\<open>columnsToHide\<close> and before it touches the table. With six measured
  columns 0..5 and the priority list [5, 4, 3, 2, 1], the first candidate shifts to 6, which has
  no width: at an available width of 300 the pass throws.
\<close>

theorem redraw_missing_width_throws:
  "redraw (scenario [5, 4, 3, 2, 1] [] (Px 300)) = Inl (TypeError ''this.error is not a function'')"
  by (simp add: layout_defs)

text \<open>
  Claim C3. Collapsing is monotone in the order of the priority list. Let column \<open>a\<close> precede
  column \<open>b\<close> in the list, and let each of them be hidden at some available width. Then, at
  every available width \<open>w\<close> at which \<open>b\<close> is in the hidden list, \<open>a\<close> is in it too. (Columns of
  the list are in the caller's numbering; in the hidden list they appear shifted by one.)
\<close>

theorem collapse_monotone:
  assumes "precedes (collapsibleColumnIndexes s) a b"
    and "\<exists>w. hidden_at s w (Suc a)"
    and "hidden_at s w (Suc b)"
  shows "hidden_at s w (Suc a)"
proof -
  from assms(3) obtain s' h where r: "redraw (s\<lparr>availableWidth := Px w\<rparr>) = Inr s'"
    and h: "columnsToHide s' = Some h" and b: "Suc b \<in> set h"
    by (auto simp: hidden_at_def split: sum.splits option.splits)
  from redraw_columnsToHide[OF r] h have "computeColumnsToHide (s\<lparr>availableWidth := Px w\<rparr>) = Inr h"
    by auto
  from computeColumnsToHide_shape[OF this] obtain n where
    n: "h = map Suc (take n (collapsibleColumnIndexes s)) \<or>
        h = map Suc (take n (collapsibleColumnIndexes s)) @ [0]" by auto
  with b have "b \<in> set (take n (collapsibleColumnIndexes s))" by auto
  with assms(1) have "a \<in> set (take n (collapsibleColumnIndexes s))" by (rule precedes_take)
  with n have "Suc a \<in> set h" by auto
  with r h show ?thesis by (simp add: hidden_at_def)
qed

theorem collapse_monotone_witness:
  "precedes (collapsibleColumnIndexes (scenario [4, 3, 2, 1, 0] [] NaN)) 4 3
   \<and> hidden_at (scenario [4, 3, 2, 1, 0] [] NaN) 400 (Suc 4)
   \<and> \<not> hidden_at (scenario [4, 3, 2, 1, 0] [] NaN) 400 (Suc 3)
   \<and> hidden_at (scenario [4, 3, 2, 1, 0] [] NaN) 300 (Suc 3)
   \<and> hidden_at (scenario [4, 3, 2, 1, 0] [] NaN) 300 (Suc 4)"
proof -
  let ?s = "scenario [4, 3, 2, 1, 0] [] NaN"
  have p: "precedes (collapsibleColumnIndexes ?s) 4 3" by (simp add: scenario_def)
  have a: "hidden_at ?s 400 (Suc 4)"
    by (simp add: hidden_at_def layout_defs removeByValue_def)
  have n: "\<not> hidden_at ?s 400 (Suc 3)"
    by (simp add: hidden_at_def layout_defs removeByValue_def)
  have b: "hidden_at ?s 300 (Suc 3)"
    by (simp add: hidden_at_def layout_defs removeByValue_def)
  from a have a': "\<exists>w. hidden_at ?s w (Suc 4)" by blast
  from collapse_monotone[OF p a' b] p a n b show ?thesis by simp
qed

text \<open>
  Claim C4, as stated: six columns of minimum widths [40, 80, 80, 80, 80, 160], priority list
  [5, 4, 3, 2, 1], and an available width between 280 and 360 give the hidden set {6}. This
  fails. Index 6 is the shift of candidate 5, and the six columns are 0..5: column 6 has no
  measured width, so it can never be hidden (\<open>hidden_columns_are_measured\<close>), and on this input
  the pass does not return at all (see C2). At width 300:
\<close>

theorem scenario_hidden_set_is_not_6:
  "map_sum id (map_option set \<circ> columnsToHide) (redraw (scenario [5, 4, 3, 2, 1] [] (Px 300)))
     \<noteq> Inr (Some {6})
   \<and> map_sum id columnsToHide (redraw (scenario [5, 4, 3, 2, 1] [] (Px 300)))
       = Inl (TypeError ''this.error is not a function'')"
  by (simp add: layout_defs)

text \<open>
  Claim C4, amended. The data columns of the six-column table are 0..4 in the caller's
  numbering, so the priority list that collapses them from the right is [4, 3, 2, 1, 0]. With
  the minimum widths [40, 80, 80, 80, 80, 160] and that list, for every available width \<open>w\<close>
  with \<open>280 \<le> w < 360\<close> the layout pass returns and hides exactly the columns 5 and 4 (and with
  them the toggle column 0 when the filter list holds both 4 and 3); for \<open>360 \<le> w < 520\<close> it
  hides column 5 alone (and with it column 0 when the filter list holds 4).
\<close>

theorem scenario_hidden_columns:
  assumes "minWidths s = [(0, 40), (1, 80), (2, 80), (3, 80), (4, 80), (5, 160)]"
    and "columnsTotalWidth s = sum_arrObj (minWidths s)"
    and "collapsibleColumnIndexes s = [4, 3, 2, 1, 0]"
    and "availableWidth s = Px w"
  shows "(280 \<le> w \<and> w < 360 \<longrightarrow>
            (\<exists>s'. redraw s = Inr s' \<and>
               columnsToHide s' =
                 Some (if 4 \<in> set (expandedColumnFilterIndexes s)
                          \<and> 3 \<in> set (expandedColumnFilterIndexes s)
                       then [5, 4, 0] else [5, 4])))
       \<and> (360 \<le> w \<and> w < 520 \<longrightarrow>
            (\<exists>s'. redraw s = Inr s' \<and>
               columnsToHide s' =
                 Some (if 4 \<in> set (expandedColumnFilterIndexes s) then [5, 0] else [5])))"
  using assms
  by (simp add: redraw_def computeColumnsToHide_def sum_arrObj_def indexOf_eq' eval_nat_numeral)

theorem scenario_hidden_columns_witness:
  "(280 :: int) \<le> 300 \<and> (300 :: int) < 360
   \<and> (\<exists>s'. redraw (scenario [4, 3, 2, 1, 0] [] (Px 300)) = Inr s'
          \<and> columnsToHide s' = Some [5, 4])
   \<and> (360 :: int) \<le> 400 \<and> (400 :: int) < 520
   \<and> (\<exists>s'. redraw (scenario [4, 3, 2, 1, 0] [4] (Px 400)) = Inr s'
          \<and> columnsToHide s' = Some [5, 0])"
proof -
  have a: "minWidths (scenario cs E w) = [(0, 40), (1, 80), (2, 80), (3, 80), (4, 80), (5, 160)]"
    and b: "columnsTotalWidth (scenario cs E w) = sum_arrObj (minWidths (scenario cs E w))"
    and c: "collapsibleColumnIndexes (scenario cs E w) = cs"
    and d: "availableWidth (scenario cs E w) = w"
    and e: "expandedColumnFilterIndexes (scenario cs E w) = E" for cs E w
    by (simp_all add: scenario_def sum_arrObj_def)
  from scenario_hidden_columns[of "scenario [4, 3, 2, 1, 0] [] (Px 300)" 300, OF a b c d]
    e[of "[4, 3, 2, 1, 0]" "[]" "Px 300"]
  have first: "\<exists>s'. redraw (scenario [4, 3, 2, 1, 0] [] (Px 300)) = Inr s'
          \<and> columnsToHide s' = Some [5, 4]"
    by simp
  from scenario_hidden_columns[of "scenario [4, 3, 2, 1, 0] [4] (Px 400)" 400, OF a b c d]
    e[of "[4, 3, 2, 1, 0]" "[4]" "Px 400"]
  have second: "\<exists>s'. redraw (scenario [4, 3, 2, 1, 0] [4] (Px 400)) = Inr s'
          \<and> columnsToHide s' = Some [5, 0]"
    by simp
  from first second show ?thesis by simp
qed

text \<open>
  Claim C5. With an empty priority list, a layout pass returns at every available width (and
  when the width is \<^verbatim>\<open>NaN\<close>), and the hidden list it computes is exactly [0]: the toggle
  column, and no data column.
\<close>

theorem empty_priority_hides_toggle_only:
  assumes "collapsibleColumnIndexes s = []"
  shows "\<exists>s'. redraw s = Inr s' \<and> columnsToHide s' = Some [0]"
  using assms by (simp add: redraw_def computeColumnsToHide_def)

theorem empty_priority_hides_toggle_only_witness:
  "collapsibleColumnIndexes (scenario [] [] (Px 100)) = []
   \<and> (\<exists>s'. redraw (scenario [] [] (Px 100)) = Inr s' \<and> columnsToHide s' = Some [0])"
proof -
  have h: "collapsibleColumnIndexes (scenario [] [] (Px 100)) = []" by (simp add: scenario_def)
  from empty_priority_hides_toggle_only[OF h] h show ?thesis by simp
qed

text \<open>
  Claim C6, as stated: at an available width not below the sum of the minimum widths of the
  columns outside the priority list, the hidden set holds no index that is absent from the
  shifted priority list. This fails for the toggle column. With the priority list [3] (shifted:
  [4]) and an available width of 520, which is the sum of all six widths, nothing has to
  collapse, and the pass hides column 0, which is not in the shifted list.
\<close>

theorem toggle_column_hidden_outside_priority_list:
  "nonCollapsibleWidth (scenario [3] [] (Px 520)) \<le> 520
   \<and> map_sum id columnsToHide (redraw (scenario [3] [] (Px 520))) = Inr (Some [0])
   \<and> 0 \<notin> set (map Suc (collapsibleColumnIndexes (scenario [3] [] (Px 520))))"
  by (simp add: layout_defs nonCollapsibleWidth_def sum_arrObj_def)

text \<open>
  Claim C6, amended: at such a width, every index of the hidden list other than 0, the toggle
  column, is the shift of an entry of the priority list. (The bound on the width is not needed
  for it: \<open>computeColumnsToHide_shape\<close> holds at every width.)
\<close>

theorem hidden_only_from_priority_list:
  assumes "availableWidth s = Px w"
    and "nonCollapsibleWidth s \<le> w"
    and "redraw s = Inr s'"
  shows "\<exists>h. columnsToHide s' = Some h \<and>
           (\<forall>k \<in> set h. k \<noteq> 0 \<longrightarrow> k \<in> set (map Suc (collapsibleColumnIndexes s)))"
proof -
  from redraw_columnsToHide[OF assms(3)] obtain h where
    h: "computeColumnsToHide s = Inr h" "columnsToHide s' = Some h" by auto
  from computeColumnsToHide_shape[OF h(1)] obtain n where
    "h = map Suc (take n (collapsibleColumnIndexes s)) \<or>
     h = map Suc (take n (collapsibleColumnIndexes s)) @ [0]" by auto
  then have "\<forall>k \<in> set h. k \<noteq> 0 \<longrightarrow> k \<in> set (map Suc (collapsibleColumnIndexes s))"
    by (auto dest!: in_set_takeD)
  with h(2) show ?thesis by simp
qed

theorem hidden_only_from_priority_list_witness:
  "availableWidth (scenario [4, 3] [] (Px 300)) = Px 300
   \<and> nonCollapsibleWidth (scenario [4, 3] [] (Px 300)) \<le> 300
   \<and> (\<exists>s' h. redraw (scenario [4, 3] [] (Px 300)) = Inr s' \<and> columnsToHide s' = Some h
          \<and> h = [5, 4]
          \<and> (\<forall>k \<in> set h. k \<noteq> 0 \<longrightarrow>
                k \<in> set (map Suc (collapsibleColumnIndexes (scenario [4, 3] [] (Px 300))))))"
proof -
  let ?s = "scenario [4, 3] [] (Px 300)"
  have a: "availableWidth ?s = Px 300" by (simp add: scenario_def)
  have b: "nonCollapsibleWidth ?s \<le> 300"
    by (simp add: scenario_def nonCollapsibleWidth_def sum_arrObj_def)
  have "\<exists>s'. redraw ?s = Inr s' \<and> columnsToHide s' = Some [5, 4]"
    by (simp add: layout_defs removeByValue_def)
  then obtain s' where r: "redraw ?s = Inr s'" and h: "columnsToHide s' = Some [5, 4]" by blast
  from hidden_only_from_priority_list[OF a b r] h
  have "\<forall>k \<in> set [5, 4]. k \<noteq> 0 \<longrightarrow> k \<in> set (map Suc (collapsibleColumnIndexes ?s))"
    by simp
  with a b r h show ?thesis by blast
qed

section \<open>A layout pass has no memory\<close>

lemma computeColumnsToHide_same_inputs:
  "same_inputs s1 s2 \<Longrightarrow> computeColumnsToHide s1 = computeColumnsToHide s2"
  by (simp add: same_inputs_def computeColumnsToHide_def split: sum.splits prod.splits)

lemma redraw_hidden:
  "map_sum id columnsToHide (redraw s) = map_sum id Some (computeColumnsToHide s)"
  by (simp add: redraw_def split: sum.splits)

lemma redraw_same_inputs: "redraw s = Inr s' \<Longrightarrow> same_inputs s s'"
  by (auto simp: redraw_def same_inputs_def split: sum.splits)

text \<open>
  Claim C7. The hidden list of a layout pass is a function of what the pass reads: two helpers
  that agree on the available width, the width map, the priority list and the filter list get
  the same result (the same hidden list, or the same exception), whatever hidden list and
  whatever table each of them had before. Running the pass again on the helper it returned
  gives the same hidden list again.
\<close>

theorem redraw_idempotent_memoryless:
  "(same_inputs s1 s2 \<longrightarrow>
      map_sum id columnsToHide (redraw s1) = map_sum id columnsToHide (redraw s2))
   \<and> (\<forall>s'. redraw s1 = Inr s' \<longrightarrow>
        map_sum id columnsToHide (redraw s') = Inr (columnsToHide s'))"
proof (intro conjI impI allI)
  assume "same_inputs s1 s2"
  then show "map_sum id columnsToHide (redraw s1) = map_sum id columnsToHide (redraw s2)"
    by (simp add: redraw_hidden computeColumnsToHide_same_inputs)
next
  fix s'
  assume r: "redraw s1 = Inr s'"
  then have "computeColumnsToHide s' = computeColumnsToHide s1"
    using computeColumnsToHide_same_inputs[OF redraw_same_inputs[OF r]] by simp
  moreover from r have "map_sum id Some (computeColumnsToHide s1) = Inr (columnsToHide s')"
    using redraw_hidden[of s1] by simp
  ultimately show "map_sum id columnsToHide (redraw s') = Inr (columnsToHide s')"
    by (simp add: redraw_hidden)
qed

theorem redraw_idempotent_memoryless_witness:
  "same_inputs (scenario [4, 3] [] (Px 300))
     ((scenario [4, 3] [] (Px 300))\<lparr>jTable := [Row []], columnsToHide := Some [1]\<rparr>)
   \<and> map_sum id columnsToHide (redraw (scenario [4, 3] [] (Px 300))) = Inr (Some [5, 4])
   \<and> map_sum id columnsToHide
       (redraw ((scenario [4, 3] [] (Px 300))\<lparr>jTable := [Row []], columnsToHide := Some [1]\<rparr>))
       = Inr (Some [5, 4])
   \<and> (\<exists>s'. redraw (scenario [4, 3] [] (Px 300)) = Inr s'
          \<and> map_sum id columnsToHide (redraw s') = Inr (Some [5, 4]))"
proof -
  let ?s1 = "scenario [4, 3] [] (Px 300)"
  let ?s2 = "?s1\<lparr>jTable := [Row []], columnsToHide := Some [1]\<rparr>"
  have si: "same_inputs ?s1 ?s2" by (simp add: same_inputs_def)
  have "\<exists>s'. redraw ?s1 = Inr s' \<and> columnsToHide s' = Some [5, 4]"
    by (simp add: layout_defs removeByValue_def)
  then obtain s' where r: "redraw ?s1 = Inr s'" and h: "columnsToHide s' = Some [5, 4]" by blast
  from r h have one: "map_sum id columnsToHide (redraw ?s1) = Inr (Some [5, 4])" by simp
  from redraw_idempotent_memoryless[of ?s1 ?s2] si one r h
  have "map_sum id columnsToHide (redraw ?s2) = Inr (Some [5, 4])"
    and "map_sum id columnsToHide (redraw s') = Inr (Some [5, 4])"
    by auto
  with si one r show ?thesis by blast
qed

section \<open>Expanding and collapsing a row\<close>

lemma hasSubRow_insert:
  "i < length t \<Longrightarrow> hasSubRow (take (Suc i) t @ [SubRow b prs] @ drop (Suc i) t) i"
  by (simp add: hasSubRow_def)

lemma remove_insert:
  "i < length t \<Longrightarrow>
   take (Suc i) (take (Suc i) t @ [r] @ drop (Suc i) t)
     @ drop (Suc (Suc i)) (take (Suc i) t @ [r] @ drop (Suc i) t) = t"
  by (simp add: min_def)

lemma leading_subs_prefix:
  "i < length t \<Longrightarrow> t ! i = Row cs \<Longrightarrow> leading_subs (take (Suc i) t @ ys) = leading_subs t"
proof (induction t arbitrary: i)
  case Nil
  then show ?case by simp
next
  case (Cons r t)
  show ?case
  proof (cases i)
    case 0
    with Cons.prems show ?thesis by simp
  next
    case (Suc j)
    with Cons show ?thesis by (cases r) simp_all
  qed
qed

lemma leading_subs_no_sub: "\<not> hasSubRow t i \<Longrightarrow> leading_subs (drop (Suc i) t) = 0"
  by (cases "drop (Suc i) t" rule: leading_subs.cases) (simp_all add: hasSubRow_def)

lemma at_most_one_sub_insert:
  assumes "at_most_one_sub t" and "i < length t" and "t ! i = Row cs" and "\<not> hasSubRow t i"
  shows "at_most_one_sub (take (Suc i) t @ [SubRow b prs] @ drop (Suc i) t)"
  using assms
proof (induction t arbitrary: i)
  case Nil
  then show ?case by simp
next
  case (Cons r t)
  show ?case
  proof (cases i)
    case 0
    with Cons.prems have r: "r = Row cs" and "\<not> hasSubRow (r # t) 0" by simp_all
    then have "leading_subs t = 0" using leading_subs_no_sub[of "r # t" 0] by simp
    with Cons.prems 0 r show ?thesis by simp
  next
    case (Suc j)
    with Cons.prems have j: "j < length t" "t ! j = Row cs" "\<not> hasSubRow t j"
      by (simp_all add: hasSubRow_def)
    from Cons.prems(1) have t: "at_most_one_sub t" by (cases r) simp_all
    from Cons.IH[OF t j] have IH: "at_most_one_sub (take (Suc j) t @ [SubRow b prs] @ drop (Suc j) t)" .
    show ?thesis
    proof (cases r)
      case (Row cs')
      with Cons.prems(1) have "leading_subs t \<le> 1" by simp
      then have "leading_subs (take (Suc j) t @ [SubRow b prs] @ drop (Suc j) t) \<le> 1"
        using leading_subs_prefix[OF j(1,2)] by simp
      with IH Row Suc show ?thesis by simp
    next
      case (SubRow b' prs')
      with IH Suc show ?thesis by simp
    qed
  qed
qed

text \<open>
  Claim C8. For every content row of the table: if the row has no sub-row, then
  \<^verbatim>\<open>addSubRow\<close> followed by \<^verbatim>\<open>removeSubRow\<close> gives back the helper and its table as they were, so
  the row count is the one before the expansion; a second \<^verbatim>\<open>addSubRow\<close> right after the first
  changes nothing, so the two calls together add at most one row; and when every row of the
  table is followed by at most one sub-row before the call, this is so after it. The statement
  covers the call that ends by an exception (\<^verbatim>\<open>columnsToHide\<close> still undefined), which leaves
  the table as it was.
\<close>

theorem expand_collapse_round_trip:
  assumes "i < length (jTable s)" and "jTable s ! i = Row cs"
  shows "(\<not> hasSubRow (jTable s) i \<longrightarrow>
            removeSubRow (after_call s (addSubRow s i)) i = s
            \<and> length (jTable (removeSubRow (after_call s (addSubRow s i)) i)) = length (jTable s))
         \<and> after_call (after_call s (addSubRow s i)) (addSubRow (after_call s (addSubRow s i)) i)
             = after_call s (addSubRow s i)
         \<and> length (jTable (after_call s (addSubRow s i))) \<le> Suc (length (jTable s))
         \<and> (at_most_one_sub (jTable s) \<longrightarrow> at_most_one_sub (jTable (after_call s (addSubRow s i))))"
proof -
  let ?t = "jTable s"
  consider (has) "hasSubRow ?t i"
    | (thrown) e where "\<not> hasSubRow ?t i" "addSubRow s i = Inl e"
    | (added) prs where "\<not> hasSubRow ?t i"
        "addSubRow s i = Inr (s\<lparr>jTable := take (Suc i) ?t @ [SubRow True prs] @ drop (Suc i) ?t\<rparr>)"
  proof (cases "hasSubRow ?t i")
    case True
    then show ?thesis by (rule has)
  next
    case False
    show ?thesis
    proof (cases "build_pairs (expandedColumnFilterIndexes s) (columnsToHide s) (columnLabels s) 0
                    (data_tds (?t ! i))")
      case (Inl e)
      with False assms(1) have "addSubRow s i = Inl e" by (simp add: addSubRow_def)
      with False show ?thesis by (rule thrown)
    next
      case (Inr prs)
      with False assms(1) have
        "addSubRow s i = Inr (s\<lparr>jTable := take (Suc i) ?t @ [SubRow True prs] @ drop (Suc i) ?t\<rparr>)"
        by (simp add: addSubRow_def)
      with False show ?thesis by (rule added)
    qed
  qed
  then show ?thesis
  proof cases
    case has
    then have "addSubRow s i = Inr s" by (simp add: addSubRow_def)
    with has show ?thesis by (simp add: after_call_def)
  next
    case thrown
    then show ?thesis by (simp add: after_call_def removeSubRow_def)
  next
    case added
    let ?s1 = "s\<lparr>jTable := take (Suc i) ?t @ [SubRow True prs] @ drop (Suc i) ?t\<rparr>"
    have s1: "after_call s (addSubRow s i) = ?s1" using added by (simp add: after_call_def)
    have has1: "hasSubRow (jTable ?s1) i" using hasSubRow_insert[OF assms(1)] by simp
    have rm: "removeSubRow ?s1 i = s"
      using has1 remove_insert[OF assms(1), of "SubRow True prs"] by (simp add: removeSubRow_def)
    have again: "addSubRow ?s1 i = Inr ?s1" using has1 by (simp add: addSubRow_def)
    have inv: "at_most_one_sub ?t \<Longrightarrow> at_most_one_sub (jTable ?s1)"
      using at_most_one_sub_insert[OF _ assms added(1)] by simp
    show ?thesis
      unfolding s1 using rm again inv assms(1) by (simp add: after_call_def)
  qed
qed

theorem expand_collapse_round_trip_witness:
  "1 < length (jTable narrow_page) \<and> \<not> hasSubRow (jTable narrow_page) 1
   \<and> at_most_one_sub (jTable narrow_page)
   \<and> length (jTable narrow_page) = 2 \<and> length (jTable expanded_page) = 3
   \<and> removeSubRow expanded_page 1 = narrow_page
   \<and> length (jTable (removeSubRow expanded_page 1)) = length (jTable narrow_page)
   \<and> after_call expanded_page (addSubRow expanded_page 1) = expanded_page
   \<and> at_most_one_sub (jTable expanded_page)"
proof -
  let ?cs = "[td ''+'', td ''1'', (td ''Mark'')\<lparr>cell_shown := False\<rparr>,
              (td ''Otto'')\<lparr>cell_shown := False\<rparr>]"
  have a: "1 < length (jTable narrow_page)" and b: "jTable narrow_page ! 1 = Row ?cs"
    and c: "\<not> hasSubRow (jTable narrow_page) 1" and d: "at_most_one_sub (jTable narrow_page)"
    and l: "length (jTable narrow_page) = 2" "length (jTable expanded_page) = 3"
    by (simp_all add: narrow_page_eq expanded_page_eq td_def th_def hasSubRow_def)
  from expand_collapse_round_trip[OF a b, folded expanded_page_def] a c d l
  show ?thesis by simp
qed

section \<open>listen and the resize handler\<close>

lemma redraw_Some: "redraw s = Inr s' \<Longrightarrow> columnsToHide s' \<noteq> None"
  by (auto simp: redraw_def split: sum.splits)

lemma listen_setup_fields:
  "columnsToHide (listen_setup e opts t) = None"
  "jTable (listen_setup e opts t) = map Row (addColumn (Some 0) (extraColumnContent opts) t)"
  "columnsTotalWidth (listen_setup e opts t) = sum_arrObj (minWidths (listen_setup e opts t))"
  "availableWidth (listen_setup e opts t) = originalAvailableWidth (listen_setup e opts t)"
  by (simp_all add: listen_setup_def Let_def options.defs rth.defs)

lemma listen_skips_pass_when_table_fits:
  assumes "\<not> js_lt (availableWidth (listen_setup e opts t))
               (columnsTotalWidth (listen_setup e opts t))"
  shows "listen e opts t = Inr (listen_setup e opts t)"
    and "columnsToHide (listen_setup e opts t) = None"
  using assms by (simp_all add: listen_def listen_setup_fields)

text \<open>
  Claim C9. The claim is that \<^verbatim>\<open>listen\<close> always runs the layout pass once, that is, computes a
  hidden list and applies it to the table. The script calls \<^verbatim>\<open>redraw\<close> in \<^verbatim>\<open>listen\<close> only under
  the guard \<^verbatim>\<open>this.availableWidth < this.columnsTotalWidth\<close>. On the example page in a container
  of 1000 pixels (available width 950, total width 280) \<^verbatim>\<open>listen\<close> returns with
  \<^verbatim>\<open>columnsToHide\<close> undefined and with every cell displayed, the cells of the toggle column
  among them, although no column is hidden; the script's own comments say that the toggle is
  shown only when a column has been hidden. The resize handler, called with the width the
  window has, computes the hidden list [0] and hides the toggle column; and a click on the
  toggle of the content row before any resize throws, because \<^verbatim>\<open>addSubRow\<close> reads
  \<^verbatim>\<open>columnsToHide\<close>.
\<close>

theorem listen_without_layout_pass:
  "map_sum id columnsToHide (listen (browser 1000) page_options page) = Inr None
   \<and> map_sum id (find_tr \<circ> jTable) (listen (browser 1000) page_options page)
       = Inr [[True, True, True, True], [True, True, True, True]]
   \<and> (case listen (browser 1000) page_options page of
         Inl e \<Rightarrow> Inl e
       | Inr s \<Rightarrow> map_sum id columnsToHide (onResize s (windowWidth (browser 1000))))
       = Inr (Some [0])
   \<and> (case listen (browser 1000) page_options page of
         Inl e \<Rightarrow> Inl e
       | Inr s \<Rightarrow> map_sum id (find_tr \<circ> jTable) (onResize s (windowWidth (browser 1000))))
       = Inr [[False, True, True, True], [False, True, True, True]]
   \<and> (case listen (browser 1000) page_options page of
         Inl e \<Rightarrow> Inl e
       | Inr s \<Rightarrow> addSubRow s 1)
       = Inl (TypeError ''this.columnsToHide is undefined'')"
  by (simp add: listen_def onResize_def addSubRow_def hasSubRow_def
      listen_setup_def browser_def page_options_def page_def td_def th_def
      getColumnMinWidths_def sum_arrObj_def addCell_def eq_index_def options.defs rth.defs
      find_tr_def Let_def redraw_def computeColumnsToHide_def hideColumns_def)

end
